theory Spec2Isabelle
  imports Complex_Main "HOL-Library.Log_Nat"
begin

section \<open>Python values\<close>

subsection \<open>Exceptions\<close>

text \<open>
  The exceptions the program can raise. \<open>TypeError\<close> carries the message of the
  violated constraint, as the two \<open>raise\<close> statements of \<open>Edge.__init__\<close> do. The other
  three come from the interpreter: \<open>ValueError\<close> from \<open>random.sample\<close> on a population
  that is too small and from \<open>int\<close> of a NaN, \<open>OverflowError\<close> from converting an
  infinite float or an integer beyond the double range, \<open>ZeroDivisionError\<close> from a
  division by zero.
\<close>

datatype error = TypeError string | ValueError | OverflowError | ZeroDivisionError

subsection \<open>Floats\<close>

text \<open>
  A Python float is an IEEE 754 double. A finite double is modelled by its exact value,
  a rational; the result of an operation is the exact result rounded to 53 significant
  bits, ties to even, with the exponent bounded below as for subnormal numbers and the
  result infinite from \<open>2 ^ 1024\<close> on in magnitude. The sign of zero is not modelled: no
  result of the program depends on it.

  \<open>ilog2 q\<close> is the exponent of a non-zero rational: the integer \<open>k\<close> with
  \<open>2 ^ k \<le> \<bar>q\<bar> < 2 ^ (k + 1)\<close>, read off the bit length of \<open>\<lfloor>\<bar>q\<bar>\<rfloor>\<close> when
  \<open>1 \<le> \<bar>q\<bar>\<close> and off the bit length of \<open>\<lceil>1 / \<bar>q\<bar>\<rceil> - 1\<close> otherwise.
\<close>

definition ilog2 :: "rat \<Rightarrow> int" where
  "ilog2 q = (if 1 \<le> \<bar>q\<bar> then bitlen \<lfloor>\<bar>q\<bar>\<rfloor> - 1
              else - bitlen (- \<lfloor>- (1 / \<bar>q\<bar>)\<rfloor> - 1))"

definition round_half_even :: "rat \<Rightarrow> int" where
  "round_half_even s =
     (let f = \<lfloor>s\<rfloor>; d = s - of_int f
      in if d < 1 / 2 then f else if 1 / 2 < d then f + 1 else if even f then f else f + 1)"

definition round_double :: "rat \<Rightarrow> rat" where
  "round_double q =
     (if q = 0 then 0
      else let e = max (ilog2 q - 52) (- 1074)
           in of_int (round_half_even (q / 2 powi e)) * 2 powi e)"

datatype float = Finite rat | PosInf | NegInf | NaN

text \<open>
  The double that an exact result is delivered as: every finite double is smaller in
  magnitude than \<open>double_limit\<close>, and a result that rounds to it or beyond is infinite.
\<close>

definition double_limit :: rat where
  "double_limit = 2 ^ 1024"

definition fl :: "rat \<Rightarrow> float" where
  "fl q = (let r = round_double q
           in if double_limit \<le> r then PosInf else if r \<le> - double_limit then NegInf
              else Finite r)"

text \<open>
  The three operations of the program, each with a finite right operand, which is all
  the program has: a weight, a converted integer.
\<close>

fun fadd :: "float \<Rightarrow> rat \<Rightarrow> float" where
  "fadd (Finite x) y = fl (x + y)"
| "fadd PosInf y = PosInf"
| "fadd NegInf y = NegInf"
| "fadd NaN y = NaN"

fun fmul :: "float \<Rightarrow> rat \<Rightarrow> float" where
  "fmul (Finite x) y = fl (x * y)"
| "fmul PosInf y = (if y = 0 then NaN else if 0 < y then PosInf else NegInf)"
| "fmul NegInf y = (if y = 0 then NaN else if 0 < y then NegInf else PosInf)"
| "fmul NaN y = NaN"

text \<open>Division by a finite double; a zero divisor raises before any rounding.\<close>

definition fdiv :: "float \<Rightarrow> rat \<Rightarrow> error + float" where
  "fdiv x y =
     (if y = 0 then Inl ZeroDivisionError
      else Inr (case x of
                  Finite a \<Rightarrow> fl (a / y)
                | PosInf \<Rightarrow> (if 0 < y then PosInf else NegInf)
                | NegInf \<Rightarrow> (if 0 < y then NegInf else PosInf)
                | NaN \<Rightarrow> NaN))"

text \<open>The comparison \<open>x >= y\<close> of a float with a finite double; false on a NaN.\<close>

fun fge :: "float \<Rightarrow> rat \<Rightarrow> bool" where
  "fge (Finite x) y = (y \<le> x)"
| "fge PosInf y = True"
| "fge NegInf y = False"
| "fge NaN y = False"

text \<open>
  \<open>float(n)\<close> for a Python integer, as the arithmetic does implicitly when an integer
  meets a float: correctly rounded, \<open>OverflowError\<close> beyond the double range.
\<close>

definition float_of_int :: "int \<Rightarrow> error + rat" where
  "float_of_int n =
     (let r = round_double (of_int n)
      in if double_limit \<le> \<bar>r\<bar> then Inl OverflowError else Inr r)"

text \<open>\<open>int(x)\<close> for a float: truncation toward zero; an infinity or a NaN raises.\<close>

fun int_of_float :: "float \<Rightarrow> error + int" where
  "int_of_float (Finite x) = Inr (if 0 \<le> x then \<lfloor>x\<rfloor> else - \<lfloor>- x\<rfloor>)"
| "int_of_float PosInf = Inl OverflowError"
| "int_of_float NegInf = Inl OverflowError"
| "int_of_float NaN = Inl ValueError"

subsection \<open>Strings\<close>

text \<open>\<open>'{}'.format(n)\<close> for an integer that is not negative: its decimal digits.\<close>

definition digit :: "int \<Rightarrow> char" where
  "digit d = ''0123456789'' ! nat d"

function str_int :: "int \<Rightarrow> string" where
  "str_int n = (if n < 10 then [digit n] else str_int (n div 10) @ [digit (n mod 10)])"
  by pat_completeness auto
termination
  by (relation "measure nat") auto

text \<open>
  \<open>'{:.2f}'.format(x)\<close>: the decimal with two fractional digits nearest to the exact
  value of the double, ties to even.
\<close>

definition format_2f :: "float \<Rightarrow> string" where
  "format_2f x =
     (case x of
        Finite a \<Rightarrow>
          (let n = round_half_even (\<bar>a\<bar> * 100)
           in (if a < 0 then ''-'' else []) @ str_int (n div 100) @ ''.''
              @ [digit (n mod 100 div 10), digit (n mod 10)])
      | PosInf \<Rightarrow> ''inf''
      | NegInf \<Rightarrow> ''-inf''
      | NaN \<Rightarrow> ''nan'')"

section \<open>Node types, nodes and edges\<close>

text \<open>
  The four labels of the enumeration \<open>NodeType\<close> of \<open>DGPSimulation.py\<close>.
\<close>

datatype NodeType = GSCC | GOUT | GIN | DC

text \<open>
  \<open>NodeSampler.samplingrate\<close>, in the insertion order of the dictionary, which is the
  order its iteration follows. Each weight is the double its decimal literal denotes.
\<close>

definition samplingrate :: "(NodeType \<times> rat) list" where
  "samplingrate =
     [(GSCC, round_double (78 / 100)), (GOUT, round_double (12 / 100)),
      (GIN, round_double (8 / 100)), (DC, round_double (2 / 100))]"

text \<open>
  The loop of \<open>NodeSampler.sampleNode\<close> over a table of weights: \<open>rtotal\<close> is the running
  total, \<open>rvar\<close> the value drawn by \<open>random.random()\<close>. The first key whose running total
  reaches \<open>rvar\<close> is returned. The function has no statement after the loop, so when the
  table is exhausted it returns Python's \<open>None\<close>.
\<close>

fun sampleNode_scan :: "(NodeType \<times> rat) list \<Rightarrow> float \<Rightarrow> rat \<Rightarrow> NodeType option" where
  "sampleNode_scan [] rtotal rvar = None"
| "sampleNode_scan ((k, w) # rest) rtotal rvar =
     (if fge (fadd rtotal w) rvar then Some k
      else sampleNode_scan rest (fadd rtotal w) rvar)"

definition sampleNode :: "rat \<Rightarrow> NodeType option" where
  "sampleNode rvar = sampleNode_scan samplingrate (Finite 0) rvar"

text \<open>
  A node stores whatever \<open>sampleNode\<close> returned and its name: the type field is a
  \<open>NodeType\<close> or \<open>None\<close>. \<open>Node_init\<close> takes the draw that \<open>sampleNode\<close> consumes. The
  accessors \<open>getType\<close> and \<open>getName\<close> are the selectors of the record, and so are
  \<open>getSource\<close>, \<open>getDest\<close> and \<open>getReciproc\<close> for an edge.
\<close>

record Node =
  Type :: "NodeType option"
  Name :: string

definition Node_init :: "string \<Rightarrow> rat \<Rightarrow> Node" where
  "Node_init name rvar = \<lparr>Type = sampleNode rvar, Name = name\<rparr>"

record Edge =
  Source :: Node
  Dest :: Node
  Reciproc :: bool

text \<open>
  \<open>Edge.__init__\<close>: the two guards in the order of the source, each raising a
  \<open>TypeError\<close>; then the fields, with \<open>Reciproc\<close> set exactly when both ends are \<open>GSCC\<close>.
\<close>

definition Edge_init :: "Node \<Rightarrow> Node \<Rightarrow> error + Edge" where
  "Edge_init src dst =
     (if Type src = Some GOUT \<or> Type dst = Some GIN
      then Inl (TypeError ''Direction constraint'')
      else if (Type src = Some DC \<and> \<not> Type dst = Some DC)
              \<or> (Type dst = Some DC \<and> \<not> Type src = Some DC)
      then Inl (TypeError ''Disconnected Component constraint'')
      else Inr \<lparr>Source = src, Dest = dst,
                Reciproc = (if Type src = Some GSCC \<and> Type dst = Some GSCC
                            then True else False)\<rparr>)"

text \<open>\<open>Edge.getKey\<close>: the two names joined by an arrow.\<close>

definition getKey :: "Edge \<Rightarrow> string" where
  "getKey e = Name (Source e) @ ''->'' @ Name (Dest e)"

text \<open>\<open>Edge.constructReciproc\<close>: a new edge with the ends swapped, built by the constructor.\<close>

definition constructReciproc :: "Edge \<Rightarrow> error + Edge" where
  "constructReciproc e = Edge_init (Dest e) (Source e)"

section \<open>The random source\<close>

text \<open>
  The program draws from Python's module \<open>random\<close> in three ways. A run is given the
  outcomes of these draws in advance, each kind in its own list, in the order in which
  they are consumed:
  \<^item> \<open>uniforms\<close>: the values of \<open>random.random()\<close>, doubles of \<open>[0, 1)\<close>;
  \<^item> \<open>pairs\<close>: the outcomes of \<open>random.sample(nodes, 2)\<close>, two positions each;
  \<^item> \<open>picks\<close>: the outcomes of \<open>random.sample(reciproc, 1)\<close>, one position each.

  A call that needs a draw when its list is used up has not returned within the draws
  given: its result is \<open>None\<close>. So \<open>None\<close> never stands for a value or an exception of
  the program, and a loop of the program that runs forever on some source of draws is
  \<open>None\<close> on every finite prefix of that source.
\<close>

record rng =
  uniforms :: "rat list"
  pairs :: "(nat \<times> nat) list"
  picks :: "nat list"

text \<open>
  \<open>random.sample(population, 2)\<close> returns the elements at two different positions of the
  population, and raises \<open>ValueError\<close> when there are fewer than two. A draw \<open>(a, b)\<close>
  selects position \<open>a mod n\<close> first and then the position numbered \<open>b mod (n - 1)\<close> among
  the \<open>n - 1\<close> others, so every draw selects two different positions and every ordered
  pair of different positions is selected by some draw.
\<close>

definition random_sample2 :: "'a list \<Rightarrow> nat \<times> nat \<Rightarrow> error + 'a \<times> 'a" where
  "random_sample2 population p =
     (let n = length population
      in if n < 2 then Inl ValueError
         else let i = fst p mod n; j = snd p mod (n - 1)
              in Inr (population ! i, population ! (if j < i then j else j + 1)))"

text \<open>
  \<open>random.sample(population, 1)[0]\<close> on a population that is not empty, which is the only
  way the program calls it: the element at position \<open>c mod n\<close>.
\<close>

definition random_sample1 :: "'a list \<Rightarrow> nat \<Rightarrow> 'a" where
  "random_sample1 population c = population ! (c mod length population)"

section \<open>The edge sampler\<close>

record EdgeSampler =
  sampled_nodes :: "Node list"
  num_edges :: int
  reciprocity :: rat
  edges :: "Edge list"
  verbose :: bool

text \<open>
  The number that the constructor receives as \<open>connectivity\<close>: a Python int or a Python
  float. (The reciprocity is only compared with a draw, so its exact value, a rational,
  is all that matters of it.)
\<close>

datatype number = PyInt int | PyFloat float

text \<open>
  The target of \<open>EdgeSampler.__init__\<close>:
  \<open>int(connectivity * node_count * (node_count-1))\<close>, with \<open>node_count\<close> an integer. The
  product is evaluated from the left. When \<open>connectivity\<close> is an int, both products are
  products of integers, exact, and \<open>int\<close> returns the result as it is. When it is a float,
  each integer is converted to a float where it meets one, each product is rounded, and
  \<open>int\<close> truncates.
\<close>

fun num_edges_init :: "number \<Rightarrow> int \<Rightarrow> error + int" where
  "num_edges_init (PyInt connectivity) node_count =
     Inr (connectivity * node_count * (node_count - 1))"
| "num_edges_init (PyFloat connectivity) node_count =
     (case float_of_int node_count of
        Inl err \<Rightarrow> Inl err
      | Inr n \<Rightarrow>
          (case float_of_int (node_count - 1) of
             Inl err \<Rightarrow> Inl err
           | Inr n1 \<Rightarrow> int_of_float (fmul (fmul connectivity n) n1)))"

text \<open>
  \<open>EdgeSampler.__init__\<close>. The list comprehension creates one node for each \<open>x\<close> of
  \<open>range(node_count)\<close>, named by the decimal digits of \<open>x\<close>; each node consumes one value
  of \<open>random.random()\<close> for its type. Then the target is computed, which can raise. The
  constructor tests none of its arguments. The result comes with the uniform draws left.
\<close>

definition EdgeSampler_init ::
    "int \<Rightarrow> number \<Rightarrow> rat \<Rightarrow> bool \<Rightarrow> rat list \<Rightarrow> ((error + EdgeSampler) \<times> rat list) option" where
  "EdgeSampler_init node_count connectivity recip verb us =
     (let n = nat node_count
      in if length us < n then None
         else Some
           (case num_edges_init connectivity node_count of
              Inl err \<Rightarrow> Inl err
            | Inr k \<Rightarrow>
                Inr \<lparr>sampled_nodes = map (\<lambda>x. Node_init (str_int (int x)) (us ! x)) [0..<n],
                     num_edges = k, reciprocity = recip, edges = [], verbose = verb\<rparr>,
            drop n us))"

text \<open>\<open>EdgeSampler.getNodes\<close>.\<close>

definition getNodes :: "EdgeSampler \<Rightarrow> Node list" where
  "getNodes S = sampled_nodes S"

text \<open>
  \<open>EdgeSampler.sampleEdge\<close>: two nodes are drawn and an edge is tried until the
  constructor accepts one. Only a \<open>TypeError\<close> is caught and leads to another draw (the
  message printed when \<open>verbose\<close> is set is not modelled); the \<open>ValueError\<close> of
  \<open>random.sample\<close> is not caught. The result comes with the pair draws left.
\<close>

fun sampleEdge :: "Node list \<Rightarrow> (nat \<times> nat) list \<Rightarrow> ((error + Edge) \<times> (nat \<times> nat) list) option"
  where
  "sampleEdge nodes [] = (if length nodes < 2 then Some (Inl ValueError, []) else None)"
| "sampleEdge nodes (p # ps) =
     (case random_sample2 nodes p of
        Inl err \<Rightarrow> Some (Inl err, p # ps)
      | Inr edgeSample \<Rightarrow>
          (case Edge_init (fst edgeSample) (snd edgeSample) of
             Inr edge \<Rightarrow> Some (Inr edge, ps)
           | Inl (TypeError terr) \<Rightarrow> sampleEdge nodes ps
           | Inl err \<Rightarrow> Some (Inl err, ps)))"

text \<open>
  The candidate edge of one round of \<open>sampleEdges\<close>, lines 153 to 156: \<open>u\<close> is the value of
  \<open>random.random()\<close>, which is drawn in every round. A fresh edge is sampled when \<open>u\<close>
  exceeds the reciprocity or no reciprocal candidate exists; otherwise a candidate is
  picked and its reciprocal edge constructed. The result comes with the pair and pick
  draws left.
\<close>

definition candidate ::
    "EdgeSampler \<Rightarrow> Edge list \<Rightarrow> rat \<Rightarrow> (nat \<times> nat) list \<Rightarrow> nat list
       \<Rightarrow> ((error + Edge) \<times> (nat \<times> nat) list \<times> nat list) option" where
  "candidate S reciproc u ps cs =
     (if reciprocity S < u \<or> length reciproc = 0
      then (case sampleEdge (sampled_nodes S) ps of
              None \<Rightarrow> None
            | Some (r, ps') \<Rightarrow> Some (r, ps', cs))
      else (case cs of
              [] \<Rightarrow> None
            | c # cs' \<Rightarrow> Some (constructReciproc (random_sample1 reciproc c), ps, cs')))"

text \<open>
  The loop of \<open>EdgeSampler.sampleEdges\<close>. Its state is the sampler (whose field \<open>edges\<close>
  the loop appends to), the local set \<open>seen\<close> of keys (the variable \<open>edges\<close> of the
  source), the local list \<open>reciproc\<close> and the local counter \<open>num_edge\<close>. An exception
  leaves the loop with the sampler as it is then.
\<close>

fun sampleEdges_loop ::
    "EdgeSampler \<Rightarrow> string set \<Rightarrow> Edge list \<Rightarrow> int \<Rightarrow> rat list \<Rightarrow> (nat \<times> nat) list \<Rightarrow> nat list
       \<Rightarrow> ((error + unit) \<times> EdgeSampler \<times> rng) option" where
  "sampleEdges_loop S seen reciproc num_edge [] ps cs =
     (if num_edge < num_edges S then None
      else Some (Inr (), S, \<lparr>uniforms = [], pairs = ps, picks = cs\<rparr>))"
| "sampleEdges_loop S seen reciproc num_edge (u # us) ps cs =
     (if num_edge < num_edges S
      then (case candidate S reciproc u ps cs of
              None \<Rightarrow> None
            | Some (Inl err, ps', cs') \<Rightarrow>
                Some (Inl err, S, \<lparr>uniforms = us, pairs = ps', picks = cs'\<rparr>)
            | Some (Inr edge, ps', cs') \<Rightarrow>
                if getKey edge \<notin> seen
                then sampleEdges_loop (S\<lparr>edges := edges S @ [edge]\<rparr>)
                       (insert (getKey edge) seen)
                       (if Reciproc edge then reciproc @ [edge] else reciproc)
                       (num_edge + 1) us ps' cs'
                else sampleEdges_loop S seen reciproc num_edge us ps' cs')
      else Some (Inr (), S, \<lparr>uniforms = u # us, pairs = ps, picks = cs\<rparr>))"

text \<open>
  \<open>EdgeSampler.sampleEdges\<close>: the three local variables start empty and at zero in every
  call, the loop runs, and the field \<open>edges\<close> of the sampler is returned. The result
  comes with the sampler after the call and the draws left.
\<close>

definition sampleEdges ::
    "EdgeSampler \<Rightarrow> rng \<Rightarrow> ((error + Edge list) \<times> EdgeSampler \<times> rng) option" where
  "sampleEdges S g =
     (case sampleEdges_loop S {} [] 0 (uniforms g) (pairs g) (picks g) of
        None \<Rightarrow> None
      | Some (Inl err, S', g') \<Rightarrow> Some (Inl err, S', g')
      | Some (Inr u, S', g') \<Rightarrow> Some (Inr (edges S'), S', g'))"

section \<open>Statistics\<close>

text \<open>
  \<open>InterstingStats.getReciprocityRate\<close>. The first loop collects the keys of the samples
  in a set; the second counts the samples whose reversed key is in that set. (The other
  statistic of the class, \<open>getNodeTypeDistribution\<close>, is not used by any property below.)
\<close>

definition keySet :: "Edge list \<Rightarrow> string set" where
  "keySet samples = fold (\<lambda>x ks. insert (getKey x) ks) samples {}"

definition reciprocalKey :: "Edge \<Rightarrow> string" where
  "reciprocalKey x = Name (Dest x) @ ''->'' @ Name (Source x)"

definition reciprocalEdge :: "Edge list \<Rightarrow> int" where
  "reciprocalEdge samples =
     fold (\<lambda>x c. if reciprocalKey x \<in> keySet samples then c + 1 else c) samples 0"

text \<open>
  The value that is printed, \<open>reciprocalEdge*100.0/len(keySet)\<close>: the count is converted
  and multiplied by the float \<open>100.0\<close>, then divided by the converted size of the set.
\<close>

definition reciprocityRate_value :: "Edge list \<Rightarrow> error + float" where
  "reciprocityRate_value samples =
     (case float_of_int (reciprocalEdge samples) of
        Inl err \<Rightarrow> Inl err
      | Inr c \<Rightarrow>
          (case float_of_int (int (card (keySet samples))) of
             Inl err \<Rightarrow> Inl err
           | Inr n \<Rightarrow> fdiv (fmul (Finite c) 100) n))"

text \<open>The line the function prints, or the exception it raises.\<close>

definition getReciprocityRate :: "Edge list \<Rightarrow> error + string" where
  "getReciprocityRate samples =
     (case reciprocityRate_value samples of
        Inl err \<Rightarrow> Inl err
      | Inr v \<Rightarrow> Inr (format_2f v @ ''%''))"

section \<open>Example data\<close>

text \<open>
  Shorthand for the values of the example runs below: a node of a given type and name,
  an edge between two \<open>GSCC\<close> nodes as the constructor returns it, the sampler of
  \<open>EdgeSampler(2, 0.5, 0)\<close> when both nodes have drawn the type \<open>GSCC\<close>, holding the given
  edges, the sampler of \<open>EdgeSampler(10, 0.3, 0)\<close> when all ten nodes have drawn the given
  type, the same sampler when node 0 has drawn the first type given and the nine others
  the second, and a source of draws with no picks.
\<close>

abbreviation node_of :: "NodeType \<Rightarrow> string \<Rightarrow> Node" where
  "node_of t name \<equiv> \<lparr>Type = Some t, Name = name\<rparr>"

abbreviation GSCC_edge :: "string \<Rightarrow> string \<Rightarrow> Edge" where
  "GSCC_edge a b \<equiv> \<lparr>Source = node_of GSCC a, Dest = node_of GSCC b, Reciproc = True\<rparr>"

abbreviation two_node_sampler :: "Edge list \<Rightarrow> EdgeSampler" where
  "two_node_sampler es \<equiv>
     \<lparr>sampled_nodes = [node_of GSCC ''0'', node_of GSCC ''1''], num_edges = 1,
      reciprocity = 0, edges = es, verbose = False\<rparr>"



abbreviation draws :: "rat list \<Rightarrow> (nat \<times> nat) list \<Rightarrow> rng" where
  "draws us ps \<equiv> \<lparr>uniforms = us, pairs = ps, picks = []\<rparr>"

section \<open>Evaluation\<close>

text \<open>The overflow bound as a numeral, so that evaluation does not recompute the power.\<close>

lemma double_limit_code [code]:
  "double_limit = 179769313486231590772930519078902473361797697894230657273430081157732675805500963132708477322407536021120113879871393357658789768814416622492847430639474124377767893424865485276302219601246094119453082952085005768838150682342462881473913110540827237163350510684586298239947245938479716304835356329624224137216"
  by (simp add: double_limit_def)

section \<open>Properties of the rounding\<close>

text \<open>
  Rounding returns an integer below \<open>2 ^ 53\<close> in magnitude unchanged, it does not grow a
  value beyond twice its magnitude plus one, and it keeps a value from one on positive.
\<close>

lemma round_half_even_of_int: "round_half_even (of_int k) = k"
  by (simp add: round_half_even_def)

lemma round_half_even_bounds:
  "of_int (round_half_even s) \<le> s + 1 / 2" "s - 1 / 2 \<le> of_int (round_half_even s)"
   "\<lfloor>s\<rfloor> \<le> round_half_even s"
  unfolding round_half_even_def Let_def by (auto; linarith)+

lemma ilog2_lower:
  assumes "q \<noteq> 0"
  shows "2 powi ilog2 q \<le> \<bar>q\<bar>"
proof (cases "1 \<le> \<bar>q\<bar>")
  case True
  then have pos: "0 < \<lfloor>\<bar>q\<bar>\<rfloor>" by linarith
  from bitlen_bounds [OF pos] have "2 ^ nat (bitlen \<lfloor>\<bar>q\<bar>\<rfloor> - 1) \<le> \<lfloor>\<bar>q\<bar>\<rfloor>" by simp
  then have "(of_int (2 ^ nat (bitlen \<lfloor>\<bar>q\<bar>\<rfloor> - 1)) :: rat) \<le> of_int \<lfloor>\<bar>q\<bar>\<rfloor>"
    by (simp only: of_int_le_iff)
  also have "\<dots> \<le> \<bar>q\<bar>" by simp
  finally have "(2::rat) ^ nat (bitlen \<lfloor>\<bar>q\<bar>\<rfloor> - 1) \<le> \<bar>q\<bar>" by simp
  moreover have "0 \<le> bitlen \<lfloor>\<bar>q\<bar>\<rfloor> - 1"
    using pos by (simp add: bitlen_alt_def)
  ultimately show ?thesis using True by (simp add: ilog2_def power_int_def)
next
  case False
  define m where "m = - \<lfloor>- (1 / \<bar>q\<bar>)\<rfloor> - 1"
  from False assms have "1 < 1 / \<bar>q\<bar>" by simp
  then have "1 < - \<lfloor>- (1 / \<bar>q\<bar>)\<rfloor>" by linarith
  then have mpos: "0 < m" by (simp add: m_def)
  from bitlen_bounds [OF mpos] have "m + 1 \<le> 2 ^ nat (bitlen m)" by simp
  then have "(of_int (m + 1) :: rat) \<le> of_int (2 ^ nat (bitlen m))"
    by (simp only: of_int_le_iff)
  moreover have "1 / \<bar>q\<bar> \<le> of_int (m + 1)"
    unfolding m_def by simp linarith
  ultimately have "1 / \<bar>q\<bar> \<le> 2 ^ nat (bitlen m)" by simp
  then have "1 \<le> 2 ^ nat (bitlen m) * \<bar>q\<bar>"
    using assms by (simp add: divide_le_eq)
  then have "1 / 2 ^ nat (bitlen m) \<le> \<bar>q\<bar>"
    by (simp add: divide_le_eq mult.commute)
  moreover have "ilog2 q = - bitlen m" using False by (simp add: ilog2_def m_def)
  moreover have "0 \<le> bitlen m" by (rule bitlen_nonneg)
  ultimately show ?thesis
    by (cases "bitlen m = 0") (simp_all add: power_int_def inverse_eq_divide power_one_over)
qed

lemma round_double_of_int:
  assumes "\<bar>m\<bar> < 2 ^ 53"
  shows "round_double (of_int m) = of_int m"
proof (cases "m = 0")
  case True
  then show ?thesis by (simp add: round_double_def)
next
  case False
  define e where "e = max (ilog2 (of_int m) - 52) (- 1074)"
  have "1 \<le> \<bar>of_int m :: rat\<bar>" using False by (simp flip: of_int_abs)
  then have "ilog2 (of_int m) = bitlen \<bar>m\<bar> - 1"
    by (simp add: ilog2_def flip: of_int_abs)
  moreover have "bitlen \<bar>m\<bar> \<le> 53"
    using assms by (simp add: bitlen_le_iff_power)
  ultimately have e: "e \<le> 0" by (simp add: e_def)
  have pw: "(2::rat) powi e = 1 / 2 ^ nat (- e)"
    using e by (cases "e = 0") (simp_all add: power_int_def inverse_eq_divide power_one_over)
  have "rat_of_int m / 2 powi e = of_int (m * 2 ^ nat (- e))" by (simp add: pw)
  then have "round_half_even (of_int m / 2 powi e) = m * 2 ^ nat (- e)"
    by (simp only: round_half_even_of_int)
  then have "of_int (round_half_even (of_int m / 2 powi e)) * 2 powi e = (of_int m :: rat)"
    by (simp add: pw)
  then show ?thesis using False by (simp add: round_double_def e_def Let_def)
qed

lemma round_double_bound:
  "\<bar>round_double q\<bar> \<le> 2 * \<bar>q\<bar> + 1"
proof (cases "q = 0")
  case True
  then show ?thesis by (simp add: round_double_def)
next
  case False
  define e where "e = max (ilog2 q - 52) (- 1074)"
  define s where "s = q / 2 powi e"
  have pe: "(0::rat) < 2 powi e" by simp
  have rd: "round_double q = of_int (round_half_even s) * 2 powi e"
    using False by (simp add: round_double_def e_def s_def Let_def)
  have "\<bar>of_int (round_half_even s) :: rat\<bar> \<le> \<bar>s\<bar> + 1 / 2"
    using round_half_even_bounds(1,2) [of s] by linarith
  then have "\<bar>of_int (round_half_even s) :: rat\<bar> * 2 powi e \<le> (\<bar>s\<bar> + 1 / 2) * 2 powi e"
    using pe by (simp only: mult_le_cancel_right_pos)
  also have "\<dots> = \<bar>q\<bar> + 2 powi e / 2"
    using pe by (simp add: s_def algebra_simps abs_divide)
  finally have a: "\<bar>round_double q\<bar> \<le> \<bar>q\<bar> + 2 powi e / 2"
    using pe by (simp add: rd abs_mult)
  have "(2::rat) powi e \<le> 2 * \<bar>q\<bar> + 2"
  proof (cases "ilog2 q - 52 \<le> - 1074")
    case True
    then have "e = - 1074" by (simp add: e_def)
    then have "(2::rat) powi e \<le> 2 powi 0"
      by (intro power_int_increasing) simp_all
    then have "(2::rat) powi e \<le> 1" by simp
    then show ?thesis by linarith
  next
    case False
    then have "e = ilog2 q - 52" by (simp add: e_def)
    then have "(2::rat) powi e \<le> 2 powi ilog2 q"
      by (simp add: power_int_increasing)
    also have "\<dots> \<le> \<bar>q\<bar>" by (rule ilog2_lower) fact
    finally show ?thesis by linarith
  qed
  with a show ?thesis by linarith
qed

lemma round_double_pos:
  assumes "1 \<le> q"
  shows "0 < round_double q"
proof -
  have q0: "q \<noteq> 0" "\<bar>q\<bar> = q" using assms by auto
  have pos: "0 < \<lfloor>q\<rfloor>" using assms by linarith
  then have "0 \<le> ilog2 q" using assms by (simp add: ilog2_def bitlen_alt_def)
  then have e: "max (ilog2 q - 52) (- 1074) = ilog2 q - 52" by simp
  define s where "s = q / 2 powi (ilog2 q - 52)"
  have "2 powi ilog2 q / 2 powi (ilog2 q - 52) \<le> s"
    unfolding s_def using ilog2_lower [OF q0(1)] q0(2)
    by (intro divide_right_mono) simp_all
  moreover have "(2::rat) powi ilog2 q / 2 powi (ilog2 q - 52) = 2 ^ 52"
    by (simp add: power_int_diff)
  ultimately have "1 \<le> s" by simp
  then have "0 < \<lfloor>s\<rfloor>" by linarith
  with round_half_even_bounds(3) [of s] have "0 < round_half_even s" by linarith
  then show ?thesis using q0(1) by (simp add: round_double_def e Let_def s_def)
qed

lemma float_of_int_exact:
  assumes "\<bar>m\<bar> < 2 ^ 53"
  shows "float_of_int m = Inr (of_int m)"
proof -
  have "\<bar>rat_of_int m\<bar> < 2 ^ 53"
    using assms by (simp flip: of_int_abs add: of_int_less_numeral_power_cancel_iff)
  also have "(2::rat) ^ 53 \<le> double_limit"
    unfolding double_limit_def by (rule power_increasing) simp_all
  finally show ?thesis
    by (simp add: float_of_int_def round_double_of_int [OF assms])
qed

lemma fl_Finite:
  assumes "2 * \<bar>q\<bar> + 1 < double_limit"
  shows "fl q = Finite (round_double q)"
proof -
  from round_double_bound [of q] assms have "\<bar>round_double q\<bar> < double_limit" by linarith
  then show ?thesis by (simp add: fl_def Let_def abs_less_iff)
qed

section \<open>The node type sampler\<close>

text \<open>
  The running totals of the configured weights in double arithmetic: 0.78, 0.9, 0.98
  and exactly 1.
\<close>

lemma total1:
  "fadd (Finite 0) (round_double (78 / 100)) = Finite (3512807709348987 / 4503599627370496)"
  by code_simp

lemma total2:
  "fadd (Finite (3512807709348987 / 4503599627370496)) (round_double (12 / 100))
     = Finite (8106479329266893 / 9007199254740992)"
  by code_simp

lemma total3:
  "fadd (Finite (8106479329266893 / 9007199254740992)) (round_double (8 / 100))
     = Finite (2206763817411543 / 2251799813685248)"
  by code_simp

lemma total4:
  "fadd (Finite (2206763817411543 / 2251799813685248)) (round_double (2 / 100)) = Finite 1"
  by code_simp

lemma sampleNode_table:
  "sampleNode rvar =
     (if rvar \<le> 3512807709348987 / 4503599627370496 then Some GSCC
      else if rvar \<le> 8106479329266893 / 9007199254740992 then Some GOUT
      else if rvar \<le> 2206763817411543 / 2251799813685248 then Some GIN
      else if rvar \<le> 1 then Some DC
      else None)"
  unfolding sampleNode_def samplingrate_def sampleNode_scan.simps total1 total2 total3 total4
    fge.simps
  by (rule refl)

lemma butlast_samplingrate:
  "butlast samplingrate
     = [(GSCC, round_double (78 / 100)), (GOUT, round_double (12 / 100)),
        (GIN, round_double (8 / 100))]"
  by (simp add: samplingrate_def)

lemma last_samplingrate: "fst (last samplingrate) = DC"
  by (simp add: samplingrate_def)

lemma sampleNode_scan_butlast:
  "sampleNode_scan (butlast samplingrate) (Finite 0) rvar =
     (if rvar \<le> 3512807709348987 / 4503599627370496 then Some GSCC
      else if rvar \<le> 8106479329266893 / 9007199254740992 then Some GOUT
      else if rvar \<le> 2206763817411543 / 2251799813685248 then Some GIN
      else None)"
  unfolding butlast_samplingrate sampleNode_scan.simps total1 total2 total3 fge.simps
  by (rule refl)

text \<open>
  Claim C2. For every draw \<open>r\<close> of \<open>[0, 1)\<close> the scan over the configured weights returns
  a node type, never nothing: the running totals in double arithmetic are 0.78, 0.9,
  0.98 and exactly 1, so the last total reaches every draw. In particular a draw that
  the types before the last leave unmatched receives the last type in iteration order,
  \<open>DC\<close>.
\<close>

theorem sampleNode_returns_type:
  "(0 \<le> rvar \<and> rvar < 1 \<longrightarrow> (\<exists>t. sampleNode rvar = Some t))
   \<and> (0 \<le> rvar \<and> rvar < 1 \<and> sampleNode_scan (butlast samplingrate) (Finite 0) rvar = None
        \<longrightarrow> sampleNode rvar = Some (fst (last samplingrate)))"
proof (rule conjI)
  show "0 \<le> rvar \<and> rvar < 1 \<longrightarrow> (\<exists>t. sampleNode rvar = Some t)"
    by (simp add: sampleNode_table)
next
  show "0 \<le> rvar \<and> rvar < 1 \<and> sampleNode_scan (butlast samplingrate) (Finite 0) rvar = None
        \<longrightarrow> sampleNode rvar = Some (fst (last samplingrate))"
    unfolding last_samplingrate sampleNode_scan_butlast sampleNode_table
    by (simp split: if_splits)
qed

theorem sampleNode_returns_type_witness:
  "(0::rat) \<le> 1 - 1 / 2 ^ 53 \<and> (1::rat) - 1 / 2 ^ 53 < 1
   \<and> sampleNode_scan (butlast samplingrate) (Finite 0) (1 - 1 / 2 ^ 53) = None
   \<and> sampleNode (1 - 1 / 2 ^ 53) = Some DC
   \<and> sampleNode 0 = Some GSCC"
proof -
  have a: "(0::rat) \<le> 1 - 1 / 2 ^ 53 \<and> (1::rat) - 1 / 2 ^ 53 < 1"
    by simp
  have b: "sampleNode_scan (butlast samplingrate) (Finite 0) (1 - 1 / 2 ^ 53) = None"
    unfolding sampleNode_scan_butlast by simp
  from sampleNode_returns_type [of "1 - 1 / 2 ^ 53"] a b
  have c: "sampleNode (1 - 1 / 2 ^ 53) = Some DC"
    by (simp only: last_samplingrate)
  from sampleNode_returns_type [of 0] have "\<exists>t. sampleNode 0 = Some t"
    by simp
  then have d: "sampleNode 0 = Some GSCC"
    by (simp add: sampleNode_table)
  from a b c d show ?thesis by blast
qed

section \<open>Edge construction\<close>

text \<open>
  Claim C3. For every pair of nodes, the constructor raises a \<open>TypeError\<close>, the exception
  that \<open>sampleEdge\<close> catches, if and only if one of the three validity rules is violated:
  the source is \<open>GOUT\<close>, or the destination is \<open>GIN\<close>, or exactly one of the two ends is
  \<open>DC\<close>. It raises nothing else, and when no rule is violated it returns an edge whose
  ends are the two nodes given.
\<close>

theorem Edge_init_raises_iff:
  "((\<exists>m. Edge_init s d = Inl (TypeError m)) \<longleftrightarrow>
      (Type s = Some GOUT \<or> Type d = Some GIN \<or> (Type s = Some DC) \<noteq> (Type d = Some DC)))
   \<and> (\<forall>err. Edge_init s d = Inl err \<longrightarrow> (\<exists>m. err = TypeError m))
   \<and> (\<not> (Type s = Some GOUT \<or> Type d = Some GIN \<or> (Type s = Some DC) \<noteq> (Type d = Some DC))
        \<longrightarrow> (\<exists>e. Edge_init s d = Inr e \<and> Source e = s \<and> Dest e = d))"
  by (auto simp: Edge_init_def)

theorem Edge_init_raises_iff_witness:
  "\<not> (Type (node_of GIN ''0'') = Some GOUT \<or> Type (node_of GSCC ''1'') = Some GIN
        \<or> (Type (node_of GIN ''0'') = Some DC) \<noteq> (Type (node_of GSCC ''1'') = Some DC))
   \<and> (\<exists>e. Edge_init (node_of GIN ''0'') (node_of GSCC ''1'') = Inr e
          \<and> Source e = node_of GIN ''0'' \<and> Dest e = node_of GSCC ''1'')
   \<and> (\<exists>m. Edge_init (node_of GSCC ''1'') (node_of DC ''2'') = Inl (TypeError m))
   \<and> (\<exists>m. Edge_init (node_of GOUT ''3'') (node_of GSCC ''1'') = Inl (TypeError m))"
  using Edge_init_raises_iff [of "node_of GIN ''0''" "node_of GSCC ''1''"]
        Edge_init_raises_iff [of "node_of GSCC ''1''" "node_of DC ''2''"]
        Edge_init_raises_iff [of "node_of GOUT ''3''" "node_of GSCC ''1''"]
  by simp

text \<open>
  Claim C4. For every edge the constructor returns, the reciprocity flag is true if and
  only if both the source and the destination have type \<open>GSCC\<close>.
\<close>

theorem Edge_init_Reciproc_iff:
  assumes "Edge_init s d = Inr e"
  shows "Reciproc e \<longleftrightarrow> (Type (Source e) = Some GSCC \<and> Type (Dest e) = Some GSCC)"
  using assms by (auto simp: Edge_init_def split: if_splits)

theorem Edge_init_Reciproc_iff_witness:
  "Edge_init (node_of GSCC ''0'') (node_of GSCC ''1'')
     = Inr \<lparr>Source = node_of GSCC ''0'', Dest = node_of GSCC ''1'', Reciproc = True\<rparr>
   \<and> Edge_init (node_of GIN ''0'') (node_of GSCC ''1'')
       = Inr \<lparr>Source = node_of GIN ''0'', Dest = node_of GSCC ''1'', Reciproc = False\<rparr>"
proof -
  have a: "Edge_init (node_of GSCC ''0'') (node_of GSCC ''1'')
     = Inr \<lparr>Source = node_of GSCC ''0'', Dest = node_of GSCC ''1'', Reciproc = True\<rparr>"
    by (simp add: Edge_init_def)
  have b: "Edge_init (node_of GIN ''0'') (node_of GSCC ''1'')
       = Inr \<lparr>Source = node_of GIN ''0'', Dest = node_of GSCC ''1'', Reciproc = False\<rparr>"
    by (simp add: Edge_init_def)
  from Edge_init_Reciproc_iff [OF a] Edge_init_Reciproc_iff [OF b] a b
  show ?thesis by simp
qed

text \<open>
  Claim C5. For every constructed edge whose reciprocity flag is true, building the
  reciprocal edge succeeds: no constraint violation is raised, and the result runs from
  the destination back to the source (and is itself flagged reciprocal).
\<close>

theorem constructReciproc_succeeds:
  assumes "Edge_init s d = Inr e" and "Reciproc e"
  shows "\<exists>e'. constructReciproc e = Inr e' \<and> Source e' = Dest e \<and> Dest e' = Source e
              \<and> Reciproc e'"
  using assms by (auto simp: Edge_init_def constructReciproc_def split: if_splits)

theorem constructReciproc_succeeds_witness:
  "Edge_init (node_of GSCC ''3'') (node_of GSCC ''5'') = Inr (GSCC_edge ''3'' ''5'')
   \<and> Reciproc (GSCC_edge ''3'' ''5'')
   \<and> constructReciproc (GSCC_edge ''3'' ''5'') = Inr (GSCC_edge ''5'' ''3'')"
proof -
  have a: "Edge_init (node_of GSCC ''3'') (node_of GSCC ''5'') = Inr (GSCC_edge ''3'' ''5'')"
    by (simp add: Edge_init_def)
  have b: "Reciproc (GSCC_edge ''3'' ''5'')"
    by simp
  from constructReciproc_succeeds [OF a b]
  have "constructReciproc (GSCC_edge ''3'' ''5'') = Inr (GSCC_edge ''5'' ''3'')"
    by (auto simp: Edge.equality)
  with a b show ?thesis by blast
qed

section \<open>The sampling loop\<close>





















lemma sampleEdges_nothing_to_do:
  assumes "num_edges S \<le> 0"
  shows "sampleEdges S g = Some (Inr (edges S), S, g)"
  using assms by (cases "uniforms g") (simp_all add: sampleEdges_def)


text \<open>
  Claim C1. On a sampler whose earlier call has accepted as many edges as the target, a
  further call of \<open>sampleEdges\<close> is to return the collection unchanged. The code does
  not: the counter of accepted edges is local to a call and starts at zero, while the
  collection is kept in the sampler, so the guard of the loop holds again and the call
  samples anew. On \<open>EdgeSampler(2, 0.5, 0)\<close> with both nodes of type \<open>GSCC\<close> (type draws
  0.5 and 0.5), the first call draws 0.75 and the pair (node 0, node 1), accepts the edge
  \<open>0->1\<close> and returns; the sampler then holds one edge, which is the target. The second
  call draws 0.75 and the pair (node 1, node 0), accepts that edge as well, and returns
  two edges.
\<close>

theorem sampleEdges_second_call_samples_anew:
  "EdgeSampler_init 2 (PyFloat (Finite (1 / 2))) 0 False [1 / 2, 1 / 2]
     = Some (Inr (two_node_sampler []), [])
   \<and> sampleEdges (two_node_sampler []) (draws [3 / 4, 3 / 4] [(0, 0), (1, 0)])
       = Some (Inr [GSCC_edge ''0'' ''1''],
               two_node_sampler [GSCC_edge ''0'' ''1''],
               draws [3 / 4] [(1, 0)])
   \<and> int (length (edges (two_node_sampler [GSCC_edge ''0'' ''1''])))
       = num_edges (two_node_sampler [GSCC_edge ''0'' ''1''])
   \<and> sampleEdges (two_node_sampler [GSCC_edge ''0'' ''1'']) (draws [3 / 4] [(1, 0)])
       = Some (Inr [GSCC_edge ''0'' ''1'', GSCC_edge ''1'' ''0''],
               two_node_sampler [GSCC_edge ''0'' ''1'', GSCC_edge ''1'' ''0''],
               draws [] [])
   \<and> [GSCC_edge ''0'' ''1'', GSCC_edge ''1'' ''0'']
       \<noteq> edges (two_node_sampler [GSCC_edge ''0'' ''1''])"
  by code_simp

text \<open>
  Claim C6. The keys of the edges that one call accepts differ from each other, and on a
  sampler that holds no edges yet the returned collection has no two edges with the same
  key (\<open>sampleEdges_fresh_distinct\<close>). The set of seen keys is local to the call, though,
  while the collection is kept in the sampler: a second call starts with an empty set
  and appends to the edges of the first. On \<open>EdgeSampler(2, 0.5, 0)\<close> with both nodes of
  type \<open>GSCC\<close>, two calls that each draw 0.75 and the pair (node 0, node 1) return a
  collection that holds the edge \<open>0->1\<close> twice.
\<close>

theorem sampleEdges_twice_duplicate_key:
  "EdgeSampler_init 2 (PyFloat (Finite (1 / 2))) 0 False [1 / 2, 1 / 2]
     = Some (Inr (two_node_sampler []), [])
   \<and> sampleEdges (two_node_sampler []) (draws [3 / 4, 3 / 4] [(0, 0), (0, 0)])
       = Some (Inr [GSCC_edge ''0'' ''1''],
               two_node_sampler [GSCC_edge ''0'' ''1''],
               draws [3 / 4] [(0, 0)])
   \<and> sampleEdges (two_node_sampler [GSCC_edge ''0'' ''1'']) (draws [3 / 4] [(0, 0)])
       = Some (Inr [GSCC_edge ''0'' ''1'', GSCC_edge ''0'' ''1''],
               two_node_sampler [GSCC_edge ''0'' ''1'', GSCC_edge ''0'' ''1''],
               draws [] [])
   \<and> map getKey [GSCC_edge ''0'' ''1'', GSCC_edge ''0'' ''1''] = [''0->1'', ''0->1'']
   \<and> \<not> distinct (map getKey [GSCC_edge ''0'' ''1'', GSCC_edge ''0'' ''1''])"
  by code_simp

section \<open>The constructor of the sampler\<close>


lemma returned_cases:
  assumes "case r of None \<Rightarrow> False | Some (Inl err, S', g') \<Rightarrow> False
           | Some (Inr es, S', g') \<Rightarrow> True"
  obtains es S' g' where "r = Some (Inr es, S', g')"
proof (cases r)
  case None
  with assms show ?thesis by simp
next
  case (Some x)
  obtain a S' g' where x: "x = (a, S', g')" by (cases x)
  show ?thesis
  proof (cases a)
    case (Inl err)
    with assms Some x show ?thesis by simp
  next
    case (Inr es)
    with Some x that show ?thesis by simp
  qed
qed





text \<open>
  Claim C8, as amended. The constructor validates nothing. Given the draws for the types
  of its nodes, it returns a sampler for every node count below \<open>2 ^ 26\<close> in magnitude,
  every float connectivity up to \<open>2 ^ 100\<close> in magnitude and every reciprocity: the
  sampler has one node for each number below the node count (none when the count is not
  positive), the reciprocity as given and the target that the product yields. For an int
  connectivity it returns a sampler whatever the node count and the connectivity. When
  the constructor does raise, the exception is the \<open>OverflowError\<close> or \<open>ValueError\<close> of a
  conversion in the product, outside those bounds.
\<close>

theorem EdgeSampler_init_unvalidated:
  "(nat node_count \<le> length us \<and> \<bar>node_count\<bar> < 2 ^ 26 \<and> \<bar>connectivity\<bar> \<le> 2 ^ 100 \<longrightarrow>
      (\<exists>S. EdgeSampler_init node_count (PyFloat (Finite connectivity)) recip verb us
               = Some (Inr S, drop (nat node_count) us)
           \<and> length (sampled_nodes S) = nat node_count \<and> reciprocity S = recip
           \<and> edges S = [] \<and> verbose S = verb
           \<and> num_edges_init (PyFloat (Finite connectivity)) node_count = Inr (num_edges S)))
   \<and> (nat node_count \<le> length us \<longrightarrow>
        (\<exists>S. EdgeSampler_init node_count (PyInt c) recip verb us
                 = Some (Inr S, drop (nat node_count) us)
             \<and> length (sampled_nodes S) = nat node_count \<and> reciprocity S = recip
             \<and> edges S = [] \<and> verbose S = verb
             \<and> num_edges_init (PyInt c) node_count = Inr (num_edges S)))
   \<and> (EdgeSampler_init node_count conn recip verb us = Some (Inl err, us') \<longrightarrow>
        err = OverflowError \<or> err = ValueError)"
proof (intro conjI impI)
  assume a: "nat node_count \<le> length us \<and> \<bar>node_count\<bar> < 2 ^ 26 \<and> \<bar>connectivity\<bar> \<le> 2 ^ 100"
  define n :: rat where "n = of_int node_count"
  define n1 :: rat where "n1 = of_int (node_count - 1)"
  from a have nc: "\<bar>node_count\<bar> < 2 ^ 26" by blast
  have "\<bar>node_count\<bar> < 2 ^ 53" "\<bar>node_count - 1\<bar> < 2 ^ 53" using nc by simp_all
  then have conv: "float_of_int node_count = Inr n" "float_of_int (node_count - 1) = Inr n1"
    unfolding n_def n1_def by (simp_all only: float_of_int_exact)
  have "\<bar>node_count\<bar> \<le> 2 ^ 26" "\<bar>node_count - 1\<bar> \<le> 2 ^ 26" using nc by simp_all
  then have n: "\<bar>n\<bar> \<le> 2 ^ 26" "\<bar>n1\<bar> \<le> 2 ^ 26"
    unfolding n_def n1_def
    by (simp_all flip: of_int_abs add: of_int_le_numeral_power_cancel_iff)
  have lim: "(2::rat) ^ 200 \<le> double_limit"
    unfolding double_limit_def by (rule power_increasing) simp_all
  have "\<bar>connectivity * n\<bar> \<le> 2 ^ 100 * 2 ^ 26"
    unfolding abs_mult using a n(1) by (intro mult_mono) simp_all
  then have cn: "\<bar>connectivity * n\<bar> \<le> 2 ^ 126" by simp
  then have "2 * \<bar>connectivity * n\<bar> + 1 < (2::rat) ^ 200" by simp
  with lim have p1: "fl (connectivity * n) = Finite (round_double (connectivity * n))"
    by (intro fl_Finite) linarith
  from round_double_bound [of "connectivity * n"] cn
  have "\<bar>round_double (connectivity * n)\<bar> \<le> 2 ^ 128" by simp
  then have "\<bar>round_double (connectivity * n) * n1\<bar> \<le> 2 ^ 128 * 2 ^ 26"
    unfolding abs_mult using n(2) by (intro mult_mono) simp_all
  then have "2 * \<bar>round_double (connectivity * n) * n1\<bar> + 1 < (2::rat) ^ 200" by simp
  with lim have p2: "fl (round_double (connectivity * n) * n1)
                      = Finite (round_double (round_double (connectivity * n) * n1))"
    by (intro fl_Finite) linarith
  have "\<exists>k. num_edges_init (PyFloat (Finite connectivity)) node_count = Inr k"
    by (simp add: conv p1 p2)
  with a show "\<exists>S. EdgeSampler_init node_count (PyFloat (Finite connectivity)) recip verb us
               = Some (Inr S, drop (nat node_count) us)
           \<and> length (sampled_nodes S) = nat node_count \<and> reciprocity S = recip
           \<and> edges S = [] \<and> verbose S = verb
           \<and> num_edges_init (PyFloat (Finite connectivity)) node_count = Inr (num_edges S)"
    by (auto simp: EdgeSampler_init_def Let_def)
next
  assume "nat node_count \<le> length us"
  then show "\<exists>S. EdgeSampler_init node_count (PyInt c) recip verb us
                 = Some (Inr S, drop (nat node_count) us)
             \<and> length (sampled_nodes S) = nat node_count \<and> reciprocity S = recip
             \<and> edges S = [] \<and> verbose S = verb
             \<and> num_edges_init (PyInt c) node_count = Inr (num_edges S)"
    by (simp add: EdgeSampler_init_def Let_def)
next
  assume "EdgeSampler_init node_count conn recip verb us = Some (Inl err, us')"
  then have e: "num_edges_init conn node_count = Inl err"
    by (auto simp: EdgeSampler_init_def Let_def split: if_splits sum.splits)
  have conv: "float_of_int m = Inl err' \<Longrightarrow> err' = OverflowError" for m err'
    by (auto simp: float_of_int_def Let_def split: if_splits)
  have trunc: "int_of_float x = Inl err' \<Longrightarrow> err' = OverflowError \<or> err' = ValueError"
    for x err' by (cases x) auto
  from e show "err = OverflowError \<or> err = ValueError"
    by (cases conn) (auto split: sum.splits dest: conv trunc)
qed

theorem EdgeSampler_init_unvalidated_witness:
  "nat 1 \<le> length [1 / 2 :: rat] \<and> \<bar>1 :: int\<bar> < 2 ^ 26 \<and> \<bar>- 5 :: rat\<bar> \<le> 2 ^ 100
   \<and> EdgeSampler_init 1 (PyFloat (Finite (- 5))) 7 False [1 / 2]
       = Some (Inr \<lparr>sampled_nodes = [node_of GSCC ''0''], num_edges = 0, reciprocity = 7,
                      edges = [], verbose = False\<rparr>, [])
   \<and> EdgeSampler_init 1 (PyInt (- 5)) 7 False [1 / 2]
       = Some (Inr \<lparr>sampled_nodes = [node_of GSCC ''0''], num_edges = 0, reciprocity = 7,
                      edges = [], verbose = False\<rparr>, [])"
proof -
  have a: "nat 1 \<le> length [1 / 2 :: rat] \<and> \<bar>1 :: int\<bar> < 2 ^ 26 \<and> \<bar>- 5 :: rat\<bar> \<le> 2 ^ 100"
    by simp
  have b: "num_edges_init (PyFloat (Finite (- 5))) 1 = Inr 0" by code_simp
  have c: "sampleNode (1 / 2) = Some GSCC" by code_simp
  note inst = EdgeSampler_init_unvalidated [of 1 "[1 / 2]" "- 5" 7 False "- 5"]
  from inst a
  obtain S where S: "EdgeSampler_init 1 (PyFloat (Finite (- 5))) 7 False [1 / 2]
                       = Some (Inr S, drop (nat 1) [1 / 2])"
    by blast
  then have "S = \<lparr>sampled_nodes = [node_of GSCC ''0''], num_edges = 0, reciprocity = 7,
                   edges = [], verbose = False\<rparr>"
    unfolding EdgeSampler_init_def b by (simp add: c Node_init_def digit_def)
  with S have f: "EdgeSampler_init 1 (PyFloat (Finite (- 5))) 7 False [1 / 2]
       = Some (Inr \<lparr>sampled_nodes = [node_of GSCC ''0''], num_edges = 0, reciprocity = 7,
                      edges = [], verbose = False\<rparr>, [])"
    by simp
  from inst a
  obtain T where T: "EdgeSampler_init 1 (PyInt (- 5)) 7 False [1 / 2]
                       = Some (Inr T, drop (nat 1) [1 / 2])"
    by blast
  then have "T = \<lparr>sampled_nodes = [node_of GSCC ''0''], num_edges = 0, reciprocity = 7,
                   edges = [], verbose = False\<rparr>"
    by (simp add: EdgeSampler_init_def c Node_init_def digit_def)
  with T have i: "EdgeSampler_init 1 (PyInt (- 5)) 7 False [1 / 2]
       = Some (Inr \<lparr>sampled_nodes = [node_of GSCC ''0''], num_edges = 0, reciprocity = 7,
                      edges = [], verbose = False\<rparr>, [])"
    by simp
  from a f i show ?thesis by blast
qed

text \<open>
  The claim as stated fails on each of its three conditions: a single node, a
  connectivity of 1.5 and a reciprocity of 1.5 are each accepted, and a sampler is
  returned.
\<close>

theorem EdgeSampler_init_validation_counterexample:
  "EdgeSampler_init 1 (PyFloat (Finite (1 / 2))) (1 / 2) False [1 / 2]
     = Some (Inr \<lparr>sampled_nodes = [node_of GSCC ''0''], num_edges = 0, reciprocity = 1 / 2,
                    edges = [], verbose = False\<rparr>, [])
   \<and> EdgeSampler_init 2 (PyFloat (Finite (3 / 2))) (1 / 2) False [1 / 2, 1 / 2]
       = Some (Inr \<lparr>sampled_nodes = [node_of GSCC ''0'', node_of GSCC ''1''], num_edges = 3,
                      reciprocity = 1 / 2, edges = [], verbose = False\<rparr>, [])
   \<and> EdgeSampler_init 2 (PyFloat (Finite (1 / 2))) (3 / 2) False [1 / 2, 1 / 2]
       = Some (Inr \<lparr>sampled_nodes = [node_of GSCC ''0'', node_of GSCC ''1''], num_edges = 1,
                      reciprocity = 3 / 2, edges = [], verbose = False\<rparr>, [])"
  by code_simp

section \<open>The reciprocity rate\<close>

text \<open>
  The two loops of \<open>getReciprocityRate\<close> in closed form: the set of the keys of the
  samples, and the number of samples whose reversed key is in it.
\<close>

lemma fold_insert_image:
  "fold (\<lambda>x ks. insert (f x) ks) xs A = f ` set xs \<union> A"
  by (induction xs arbitrary: A) auto

lemma keySet_image: "keySet samples = getKey ` set samples"
  by (simp add: keySet_def fold_insert_image)

lemma fold_count_filter:
  "fold (\<lambda>x c. if P x then c + 1 else c) xs (c0 :: int) = c0 + int (length (filter P xs))"
  by (induction xs arbitrary: c0) auto

lemma reciprocalEdge_filter:
  "reciprocalEdge samples
     = int (length (filter (\<lambda>x. reciprocalKey x \<in> getKey ` set samples) samples))"
  by (simp add: reciprocalEdge_def fold_count_filter keySet_image)

lemma card_keys:
  assumes "samples \<noteq> []"
  shows "0 < card (getKey ` set samples)" and "card (getKey ` set samples) \<le> length samples"
proof -
  from assms show "0 < card (getKey ` set samples)"
    by (simp add: card_gt_0_iff)
  have "card (getKey ` set samples) \<le> card (set samples)" by (rule card_image_le) simp
  also have "\<dots> \<le> length samples" by (rule card_length)
  finally show "card (getKey ` set samples) \<le> length samples" .
qed

lemma float_of_int_not_ZeroDivisionError: "float_of_int m \<noteq> Inl ZeroDivisionError"
  by (simp add: float_of_int_def Let_def)

lemma float_of_int_pos:
  assumes "1 \<le> m" and "float_of_int m = Inr x"
  shows "x \<noteq> 0"
proof -
  from assms(2) have "x = round_double (of_int m)"
    by (auto simp: float_of_int_def Let_def split: if_splits)
  moreover from assms(1) have "0 < round_double (of_int m)"
    by (intro round_double_pos) simp
  ultimately show ?thesis by simp
qed

text \<open>
  Claim C10. On an empty collection of edges the set of keys is empty and the division
  raises \<open>ZeroDivisionError\<close>: the function fails and prints no rate. On every
  collection that is not empty the set of keys is not empty and no division by zero
  occurs.
\<close>

theorem reciprocityRate_empty_iff:
  "(reciprocityRate_value samples = Inl ZeroDivisionError \<longleftrightarrow> samples = [])
   \<and> (getReciprocityRate samples = Inl ZeroDivisionError \<longleftrightarrow> samples = [])"
proof -
  have empty: "reciprocityRate_value [] = Inl ZeroDivisionError"
    by (simp add: reciprocityRate_value_def reciprocalEdge_def keySet_def float_of_int_def
        round_double_def double_limit_def fdiv_def)
  have nonempty: "reciprocityRate_value samples \<noteq> Inl ZeroDivisionError" if "samples \<noteq> []"
  proof (cases "float_of_int (reciprocalEdge samples)")
    case (Inl err)
    with float_of_int_not_ZeroDivisionError [of "reciprocalEdge samples"] show ?thesis
      by (simp add: reciprocityRate_value_def)
  next
    case c: (Inr cf)
    show ?thesis
    proof (cases "float_of_int (int (card (keySet samples)))")
      case (Inl err)
      with c float_of_int_not_ZeroDivisionError [of "int (card (keySet samples))"]
      show ?thesis by (simp add: reciprocityRate_value_def)
    next
      case (Inr nf)
      from card_keys(1) [OF that] have "1 \<le> int (card (keySet samples))"
        by (simp add: keySet_image)
      from float_of_int_pos [OF this Inr] have "nf \<noteq> 0" .
      with c Inr show ?thesis by (simp add: reciprocityRate_value_def fdiv_def)
    qed
  qed
  have "reciprocityRate_value samples = Inl ZeroDivisionError \<longleftrightarrow> samples = []"
    using empty nonempty by blast
  moreover have "getReciprocityRate samples = Inl ZeroDivisionError
                   \<longleftrightarrow> reciprocityRate_value samples = Inl ZeroDivisionError"
    by (simp add: getReciprocityRate_def split: sum.splits)
  ultimately show ?thesis by simp
qed

text \<open>
  The rate of a collection that is not empty, when it is shorter than \<open>2 ^ 46\<close>: the count
  times 100 is then exact in a double, and the value is the double nearest to the exact
  quotient.
\<close>

lemma reciprocityRate_rounded:
  assumes "samples \<noteq> []" and "length samples < 2 ^ 46"
  shows "reciprocityRate_value samples
           = Inr (Finite (round_double
               (of_nat (length (filter (\<lambda>x. reciprocalKey x \<in> getKey ` set samples) samples))
                  / of_nat (card (getKey ` set samples)) * 100)))
         \<and> getReciprocityRate samples
           = Inr (format_2f (Finite (round_double
               (of_nat (length (filter (\<lambda>x. reciprocalKey x \<in> getKey ` set samples) samples))
                  / of_nat (card (getKey ` set samples)) * 100))) @ ''%'')"
proof -
  define c where "c = length (filter (\<lambda>x. reciprocalKey x \<in> getKey ` set samples) samples)"
  define n where "n = card (getKey ` set samples)"
  have c: "c \<le> length samples" by (simp add: c_def)
  from card_keys [OF assms(1)] have n: "0 < n" "n \<le> length samples" by (simp_all add: n_def)
  have lim: "(2::rat) ^ 55 \<le> double_limit"
    unfolding double_limit_def by (rule power_increasing) simp_all
  have c46: "int c < 2 ^ 46" and n46: "int n < 2 ^ 46" using c n(2) assms(2) by simp_all
  have conv_c: "float_of_int (int c) = Inr (of_nat c)"
    using c46 by (subst float_of_int_exact) simp_all
  have conv_n: "float_of_int (int n) = Inr (of_nat n)"
    using n46 by (subst float_of_int_exact) simp_all
  have "\<bar>int c * 100\<bar> < 2 ^ 53" using c46 by simp
  from round_double_of_int [OF this]
  have exact: "round_double (of_nat c * 100) = of_nat c * 100" by simp
  have c53: "(of_nat c :: rat) * 100 < 2 ^ 53"
  proof -
    have "(of_int (int c * 100) :: rat) < of_int (2 ^ 53)"
      using c46 by (simp only: of_int_less_iff) simp
    then show ?thesis by simp
  qed
  then have "2 * \<bar>of_nat c * 100 :: rat\<bar> + 1 < 2 ^ 55" by simp
  with lim have prod: "fl (of_nat c * 100) = Finite (of_nat c * 100)"
    by (subst fl_Finite) (simp_all add: exact)
  have "(of_nat c :: rat) * 100 / of_nat n \<le> of_nat c * 100"
    using n(1) by (simp add: divide_le_eq mult_le_cancel_left1)
  with c53 have "2 * \<bar>of_nat c * 100 / of_nat n :: rat\<bar> + 1 < 2 ^ 55"
    by simp
  with lim have quot: "fl (of_nat c * 100 / of_nat n)
                        = Finite (round_double (of_nat c * 100 / of_nat n))"
    by (intro fl_Finite) linarith
  have n0: "(of_nat n :: rat) \<noteq> 0" using n(1) by simp
  have re: "reciprocalEdge samples = int c" by (simp add: reciprocalEdge_filter c_def)
  have ks: "card (keySet samples) = n" by (simp add: keySet_image n_def)
  have "reciprocityRate_value samples = Inr (Finite (round_double (of_nat c * 100 / of_nat n)))"
    using n(1) by (simp add: reciprocityRate_value_def re ks conv_c conv_n prod fdiv_def quot)
  moreover have "(of_nat c :: rat) * 100 / of_nat n = of_nat c / of_nat n * 100" by simp
  ultimately have v: "reciprocityRate_value samples
                        = Inr (Finite (round_double (of_nat c / of_nat n * 100)))"
    by (simp only:)
  have "getReciprocityRate samples
          = Inr (format_2f (Finite (round_double (of_nat c / of_nat n * 100))) @ ''%'')"
    unfolding getReciprocityRate_def v by (simp only: sum.case)
  with v show ?thesis
    unfolding c_def n_def by (rule conjI)
qed

text \<open>
  Claim C9. For every collection of edges the function divides the count of the edges
  whose reverse key, destination name to source name, is in the set \<open>K\<close> of the keys of
  the collection, times \<open>100.0\<close>, by the size of \<open>K\<close>, in double arithmetic; the count runs
  over the edges, each edge of the collection counting once, not over pairs of nodes.
  For every collection that is not empty (and shorter than \<open>2 ^ 46\<close>, so that the count
  times 100 is exact) the rate is therefore that count divided by the size of \<open>K\<close>, times
  100: the function computes the double nearest to it and prints it with two decimals
  and a percent sign.
\<close>

theorem reciprocityRate_formula:
  "reciprocityRate_value samples
     = (case float_of_int
               (int (length (filter (\<lambda>x. reciprocalKey x \<in> getKey ` set samples) samples))) of
          Inl err \<Rightarrow> Inl err
        | Inr c \<Rightarrow>
            (case float_of_int (int (card (getKey ` set samples))) of
               Inl err \<Rightarrow> Inl err
             | Inr n \<Rightarrow> fdiv (fmul (Finite c) 100) n))
   \<and> (samples \<noteq> [] \<and> length samples < 2 ^ 46 \<longrightarrow>
        reciprocityRate_value samples
          = Inr (Finite (round_double
              (of_nat (length (filter (\<lambda>x. reciprocalKey x \<in> getKey ` set samples) samples))
                 / of_nat (card (getKey ` set samples)) * 100)))
        \<and> getReciprocityRate samples
          = Inr (format_2f (Finite (round_double
              (of_nat (length (filter (\<lambda>x. reciprocalKey x \<in> getKey ` set samples) samples))
                 / of_nat (card (getKey ` set samples)) * 100))) @ ''%''))"
proof (rule conjI)
  show "reciprocityRate_value samples
     = (case float_of_int
               (int (length (filter (\<lambda>x. reciprocalKey x \<in> getKey ` set samples) samples))) of
          Inl err \<Rightarrow> Inl err
        | Inr c \<Rightarrow>
            (case float_of_int (int (card (getKey ` set samples))) of
               Inl err \<Rightarrow> Inl err
             | Inr n \<Rightarrow> fdiv (fmul (Finite c) 100) n))"
    by (simp only: reciprocityRate_value_def reciprocalEdge_filter keySet_image)
next
  show "samples \<noteq> [] \<and> length samples < 2 ^ 46 \<longrightarrow>
        reciprocityRate_value samples
          = Inr (Finite (round_double
              (of_nat (length (filter (\<lambda>x. reciprocalKey x \<in> getKey ` set samples) samples))
                 / of_nat (card (getKey ` set samples)) * 100)))
        \<and> getReciprocityRate samples
          = Inr (format_2f (Finite (round_double
              (of_nat (length (filter (\<lambda>x. reciprocalKey x \<in> getKey ` set samples) samples))
                 / of_nat (card (getKey ` set samples)) * 100))) @ ''%'')"
    using reciprocityRate_rounded [of samples] by blast
qed

theorem reciprocityRate_formula_witness:
  "[GSCC_edge ''0'' ''1'', GSCC_edge ''1'' ''0'', GSCC_edge ''0'' ''2''] \<noteq> []
   \<and> length [GSCC_edge ''0'' ''1'', GSCC_edge ''1'' ''0'', GSCC_edge ''0'' ''2''] < 2 ^ 46
   \<and> reciprocityRate_value [GSCC_edge ''0'' ''1'', GSCC_edge ''1'' ''0'', GSCC_edge ''0'' ''2'']
       = Inr (Finite (round_double (200 / 3)))
   \<and> getReciprocityRate [GSCC_edge ''0'' ''1'', GSCC_edge ''1'' ''0'', GSCC_edge ''0'' ''2'']
       = Inr ''66.67%''"
proof -
  define samples
    where "samples = [GSCC_edge ''0'' ''1'', GSCC_edge ''1'' ''0'', GSCC_edge ''0'' ''2'']"
  have h1: "samples \<noteq> []" and h2: "length samples < 2 ^ 46"
    by (simp_all add: samples_def)
  have cnt: "length (filter (\<lambda>x. reciprocalKey x \<in> getKey ` set samples) samples) = 2"
    by (simp add: samples_def reciprocalKey_def getKey_def)
  have crd: "card (getKey ` set samples) = 3"
    by (simp add: samples_def getKey_def)
  have q: "(of_nat 2 :: rat) / of_nat 3 * 100 = 200 / 3" by simp
  have str: "format_2f (Finite (round_double (200 / 3))) @ ''%'' = ''66.67%''"
    by code_simp
  from reciprocityRate_formula [of samples] h1 h2
  have "reciprocityRate_value samples
          = Inr (Finite (round_double
              (of_nat (length (filter (\<lambda>x. reciprocalKey x \<in> getKey ` set samples) samples))
                 / of_nat (card (getKey ` set samples)) * 100)))
        \<and> getReciprocityRate samples
          = Inr (format_2f (Finite (round_double
              (of_nat (length (filter (\<lambda>x. reciprocalKey x \<in> getKey ` set samples) samples))
                 / of_nat (card (getKey ` set samples)) * 100))) @ ''%'')"
    by blast
  then have "reciprocityRate_value samples = Inr (Finite (round_double (200 / 3)))
        \<and> getReciprocityRate samples = Inr ''66.67%''"
    unfolding cnt crd q str .
  with h1 h2 show ?thesis unfolding samples_def by blast
qed

end
